theory Spec2Isabelle
  imports Main "HOL-Library.Word"
begin

unbundle bit_operations_syntax

section \<open>Common types\<close>

text \<open>
  Go strings and byte slices are sequences of bytes; both are modelled as \<open>string\<close>
  (a list of 8-bit characters). A \<open>nil\<close> slice and an empty one are both \<open>[]\<close>.
\<close>

type_synonym bytes = string

text \<open>
  An error value that comes from outside the package (os/exec, crypto/rand,
  path/filepath), identified by its message.
\<close>

datatype os_error = OsError string

text \<open>
  The errors the package returns: an outside error handed on as it is
  (\<open>return nil, err\<close>), and the three errors made with \<open>fmt.Errorf\<close>.
\<close>

datatype error =
    Unwrapped os_error
  | WgShowFailed os_error
  | ConnectionNotFound string
  | SessionIDFailed os_error

text \<open>The text of an error, as \<open>err.Error()\<close> gives it.\<close>

fun Error :: "error \<Rightarrow> string" where
  "Error (Unwrapped (OsError m)) = m"
| "Error (WgShowFailed (OsError m)) = ''failed to execute wg show: '' @ m"
| "Error (ConnectionNotFound name) = ''failed to find connection: '' @ name"
| "Error (SessionIDFailed (OsError m)) = ''failed to generate session ID: '' @ m"

section \<open>encoding/hex\<close>

definition hexdigit :: "nat \<Rightarrow> char" where
  "hexdigit n = ''0123456789abcdef'' ! (n mod 16)"

text \<open>\<open>hex.EncodeToString\<close>: two lower-case digits for each byte.\<close>

fun EncodeToString :: "bytes \<Rightarrow> string" where
  "EncodeToString [] = []"
| "EncodeToString (b # bs) =
     hexdigit (of_char b div 16) # hexdigit (of_char b mod 16) # EncodeToString bs"

section \<open>The session store (internal/auth.go)\<close>

text \<open>
  An instant is a number of nanoseconds on one clock; \<open>t.After(u)\<close> is \<open>u < t\<close> and
  \<open>t.Add(d)\<close> is \<open>t + d\<close>. The mutex of the manager is not modelled: the operations
  run one after the other.
\<close>

type_synonym time = int

definition Hour :: int where
  "Hour = 3600000000000"

record Session =
  Expires :: time

record SessionManager =
  sessions :: "string \<rightharpoonup> Session"

text \<open>
  \<open>generateSecureToken\<close>: \<open>rd n\<close> is what \<open>rand.Read\<close> does on a buffer of \<open>n\<close>
  bytes, the bytes it wrote and its error.
\<close>

definition generateSecureToken :: "(nat \<Rightarrow> bytes \<times> os_error option) \<Rightarrow> os_error + string" where
  "generateSecureToken rd =
     (case rd 32 of
        (bs, Some err) \<Rightarrow> Inl err
      | (bs, None) \<Rightarrow> Inr (EncodeToString bs))"

text \<open>\<open>CreateSession\<close>, with the random source and the reading of the clock as arguments.\<close>

definition CreateSession ::
  "SessionManager \<Rightarrow> (nat \<Rightarrow> bytes \<times> os_error option) \<Rightarrow> time
     \<Rightarrow> (error + string \<times> time) \<times> SessionManager" where
  "CreateSession sm rd now =
     (case generateSecureToken rd of
        Inl err \<Rightarrow> (Inl (SessionIDFailed err), sm)
      | Inr sessionID \<Rightarrow>
          (let expires = now + 1 * Hour
           in (Inr (sessionID, expires),
               sm\<lparr>sessions := (sessions sm)(sessionID \<mapsto> \<lparr>Expires = expires\<rparr>)\<rparr>)))"

text \<open>
  \<open>ValidateSession\<close> returns the session (or nil) and the flag; the manager is
  returned too, so that what the call does to the store is part of the model.
\<close>

definition ValidateSession ::
  "SessionManager \<Rightarrow> time \<Rightarrow> string \<Rightarrow> (Session option \<times> bool) \<times> SessionManager" where
  "ValidateSession sm now sessionID =
     (case sessions sm sessionID of
        None \<Rightarrow> ((None, False), sm)
      | Some session \<Rightarrow>
          if Expires session < now then ((None, False), sm)
          else ((Some session, True), sm))"

definition DeleteSession :: "SessionManager \<Rightarrow> string \<Rightarrow> SessionManager" where
  "DeleteSession sm sessionID = sm\<lparr>sessions := (sessions sm)(sessionID := None)\<rparr>"

text \<open>
  One tick of \<open>cleanupExpiredSessions\<close> (the body of its loop over the ticker), at
  the instant \<open>now\<close>: every entry whose expiry lies before \<open>now\<close> is deleted.
\<close>

definition cleanupTick :: "SessionManager \<Rightarrow> time \<Rightarrow> SessionManager" where
  "cleanupTick sm now =
     sm\<lparr>sessions := (\<lambda>sessionID.
          case sessions sm sessionID of
            None \<Rightarrow> None
          | Some session \<Rightarrow> if Expires session < now then None else Some session)\<rparr>"

section \<open>Library functions the orchestrator uses\<close>

subsection \<open>strings\<close>

definition HasPrefix :: "string \<Rightarrow> string \<Rightarrow> bool" where
  "HasPrefix s prefix = (take (length prefix) s = prefix)"

definition HasSuffix :: "string \<Rightarrow> string \<Rightarrow> bool" where
  "HasSuffix s suffix =
     (length suffix \<le> length s \<and> drop (length s - length suffix) s = suffix)"

definition TrimPrefix :: "string \<Rightarrow> string \<Rightarrow> string" where
  "TrimPrefix s prefix = (if HasPrefix s prefix then drop (length prefix) s else s)"

definition TrimSuffix :: "string \<Rightarrow> string \<Rightarrow> string" where
  "TrimSuffix s suffix =
     (if HasSuffix s suffix then take (length s - length suffix) s else s)"

fun Contains :: "string \<Rightarrow> string \<Rightarrow> bool" where
  "Contains [] substr = (substr = [])"
| "Contains (c # s) substr = (HasPrefix (c # s) substr \<or> Contains s substr)"

text \<open>
  \<open>strings.Split\<close> and \<open>strings.SplitSeq\<close>, for a separator of one byte (the code
  splits at the line feed only): the pieces between the separators, the empty ones too;
  the empty string gives one empty piece.
\<close>

fun Split :: "string \<Rightarrow> char \<Rightarrow> string list" where
  "Split [] sep = [[]]"
| "Split (c # s) sep =
     (if c = sep then [] # Split s sep
      else (case Split s sep of
              [] \<Rightarrow> [[c]]
            | piece # pieces \<Rightarrow> (c # piece) # pieces))"

fun Join :: "string list \<Rightarrow> string \<Rightarrow> string" where
  "Join [] sep = []"
| "Join [e] sep = e"
| "Join (e # e' # elems) sep = e @ sep @ Join (e' # elems) sep"

text \<open>
  \<open>strings.TrimSpace\<close> removes the leading and the trailing white space, as Unicode
  defines it, of a string in UTF-8. \<open>spaceRunes\<close> lists the characters for which
  \<open>unicode.IsSpace\<close> holds, each in UTF-8: \<open>\t \n \v \f \r\<close> and the space, U+0085,
  U+00A0, U+1680, U+2000 to U+200A, U+2028, U+2029, U+202F, U+205F and U+3000. No one of
  them begins or ends another, so at most one is at the head of a string, and at most
  one at its end.
\<close>

definition spaceRunes :: "string list" where
  "spaceRunes =
     [
      [CHR 0x09], [CHR 0x0A], [CHR 0x0B], [CHR 0x0C], [CHR 0x0D], [CHR 0x20], [CHR 0xC2, CHR 0x85],
      [CHR 0xC2, CHR 0xA0], [CHR 0xE1, CHR 0x9A, CHR 0x80], [CHR 0xE2, CHR 0x80, CHR 0x80],
      [CHR 0xE2, CHR 0x80, CHR 0x81], [CHR 0xE2, CHR 0x80, CHR 0x82], [CHR 0xE2, CHR 0x80, CHR 0x83],
      [CHR 0xE2, CHR 0x80, CHR 0x84], [CHR 0xE2, CHR 0x80, CHR 0x85], [CHR 0xE2, CHR 0x80, CHR 0x86],
      [CHR 0xE2, CHR 0x80, CHR 0x87], [CHR 0xE2, CHR 0x80, CHR 0x88], [CHR 0xE2, CHR 0x80, CHR 0x89],
      [CHR 0xE2, CHR 0x80, CHR 0x8A], [CHR 0xE2, CHR 0x80, CHR 0xA8], [CHR 0xE2, CHR 0x80, CHR 0xA9],
      [CHR 0xE2, CHR 0x80, CHR 0xAF], [CHR 0xE2, CHR 0x81, CHR 0x9F], [CHR 0xE3, CHR 0x80, CHR 0x80]]"

function TrimLeftSpace :: "string \<Rightarrow> string" where
  "TrimLeftSpace s =
     (case find (HasPrefix s) spaceRunes of
        None \<Rightarrow> s
      | Some r \<Rightarrow> TrimLeftSpace (drop (length r) s))"
  by pat_completeness auto
termination
proof (relation "measure length")
  show "wf (measure length)" by simp
next
  fix s r
  assume "find (HasPrefix s) spaceRunes = Some r"
  then have "HasPrefix s r" and "r \<in> set spaceRunes"
    by (auto simp: find_Some_iff)
  then have "r \<noteq> []" and "s \<noteq> []"
    by (auto simp: spaceRunes_def HasPrefix_def)
  then show "(drop (length r) s, s) \<in> measure length"
    by simp
qed

function TrimRightSpace :: "string \<Rightarrow> string" where
  "TrimRightSpace s =
     (case find (HasSuffix s) spaceRunes of
        None \<Rightarrow> s
      | Some r \<Rightarrow> TrimRightSpace (take (length s - length r) s))"
  by pat_completeness auto
termination
proof (relation "measure length")
  show "wf (measure length)" by simp
next
  fix s r
  assume "find (HasSuffix s) spaceRunes = Some r"
  then have "HasSuffix s r" and "r \<in> set spaceRunes"
    by (auto simp: find_Some_iff)
  then have "r \<noteq> []" and "s \<noteq> []"
    by (auto simp: spaceRunes_def HasSuffix_def)
  then show "(take (length s - length r) s, s) \<in> measure length"
    by simp
qed

declare TrimLeftSpace.simps [simp del] TrimRightSpace.simps [simp del]

definition TrimSpace :: "string \<Rightarrow> string" where
  "TrimSpace s = TrimRightSpace (TrimLeftSpace s)"

text \<open>The bytes that occur in white space.\<close>

definition spaceByte :: "char \<Rightarrow> bool" where
  "spaceByte c = (c \<in> set (concat spaceRunes))"

subsection \<open>path/filepath, with the separator \<open>/\<close>\<close>

definition Base :: "string \<Rightarrow> string" where
  "Base path =
     (if path = [] then ''.''
      else (let stripped = rev (dropWhile (\<lambda>c. c = CHR ''/'') (rev path));
                elem = rev (takeWhile (\<lambda>c. c \<noteq> CHR ''/'') (rev stripped))
            in if elem = [] then ''/'' else elem))"

definition Ext :: "string \<Rightarrow> string" where
  "Ext path =
     (let elem = takeWhile (\<lambda>c. c \<noteq> CHR ''/'') (rev path)
      in if CHR ''.'' \<in> set elem
         then CHR ''.'' # rev (takeWhile (\<lambda>c. c \<noteq> CHR ''.'') elem)
         else [])"

subsection \<open>The regular expression \<open>^interface:\s+(.+)$\<close>\<close>

text \<open>
  In Go's syntax \<open>\s\<close> is one of \<open>\t \n \f \r\<close> and the space, \<open>.\<close> is any
  character but the line feed, and \<open>^\<close> and \<open>$\<close> are the two ends of the text.
  \<open>\s+\<close> is greedy: it takes the longest run of white space that leaves a
  non-empty rest without a line feed for the group.
\<close>

definition perlSpace :: "char \<Rightarrow> bool" where
  "perlSpace c = (c \<in> {CHR 0x09, CHR 0x0A, CHR 0x0C, CHR 0x0D, CHR 0x20})"

fun interfaceRegex_group :: "nat \<Rightarrow> string \<Rightarrow> string option" where
  "interfaceRegex_group 0 r = None"
| "interfaceRegex_group (Suc k) r =
     (let rest = drop (Suc k) r
      in if rest \<noteq> [] \<and> CHR 0x0A \<notin> set rest then Some rest
         else interfaceRegex_group k r)"

text \<open>
  \<open>interfaceRegex.FindStringSubmatch\<close>: no match is the nil slice, a match is the
  matched text (the whole string) and the group.
\<close>

definition interfaceRegex_FindStringSubmatch :: "string \<Rightarrow> string list" where
  "interfaceRegex_FindStringSubmatch s =
     (if HasPrefix s ''interface:''
      then (let r = drop (length ''interface:'') s
            in case interfaceRegex_group (length (takeWhile perlSpace r)) r of
                 None \<Rightarrow> []
               | Some g \<Rightarrow> [s, g])
      else [])"

subsection \<open>samber/lo\<close>

text \<open>
  \<open>lo.FilterMap\<close>, \<open>lo.Filter\<close>, \<open>lo.Map\<close> and \<open>lo.Find\<close> hand the index of the
  element to the function as well; no function of this package reads it, and the model
  leaves it out. \<open>lo.Filter\<close> is \<open>filter\<close>, \<open>lo.Map\<close> is \<open>map\<close>, \<open>lo.Find\<close> is
  \<open>find\<close>.
\<close>

fun FilterMap :: "'a list \<Rightarrow> ('a \<Rightarrow> 'b \<times> bool) \<Rightarrow> 'b list" where
  "FilterMap [] callback = []"
| "FilterMap (item # collection) callback =
     (case callback item of
        (r, True) \<Rightarrow> r # FilterMap collection callback
      | (r, False) \<Rightarrow> FilterMap collection callback)"

section \<open>The host\<close>

text \<open>
  The package reads and changes the host through \<open>os/exec\<close> and \<open>filepath.Glob\<close>.
  Both are arguments of the model: for a host of type \<open>'s\<close>, \<open>Output\<close> and
  \<open>CombinedOutput\<close> give, for the arguments of a command, the bytes the call returns,
  its error (if any) and the host after it; \<open>Glob\<close> gives the paths that match a
  pattern, and its error.
\<close>

record 's sys =
  Output :: "string list \<Rightarrow> 's \<Rightarrow> (bytes \<times> os_error option) \<times> 's"
  CombinedOutput :: "string list \<Rightarrow> 's \<Rightarrow> (bytes \<times> os_error option) \<times> 's"
  Glob :: "string \<Rightarrow> 's \<Rightarrow> string list \<times> os_error option"

text \<open>The host, and the commands run on it so far, the first one first.\<close>

record 's world =
  host :: 's
  issued :: "string list list"

definition run_Output ::
  "'s sys \<Rightarrow> string list \<Rightarrow> 's world \<Rightarrow> (bytes \<times> os_error option) \<times> 's world" where
  "run_Output sys argv w =
     (case Output sys argv (host w) of
        (r, h) \<Rightarrow> (r, \<lparr>host = h, issued = issued w @ [argv]\<rparr>))"

definition run_CombinedOutput ::
  "'s sys \<Rightarrow> string list \<Rightarrow> 's world \<Rightarrow> (bytes \<times> os_error option) \<times> 's world" where
  "run_CombinedOutput sys argv w =
     (case CombinedOutput sys argv (host w) of
        (r, h) \<Rightarrow> (r, \<lparr>host = h, issued = issued w @ [argv]\<rparr>))"

section \<open>The orchestrator (package internal)\<close>

text \<open>
  A function that returns \<open>(value, error)\<close> in Go returns \<open>error + value\<close> here:
  \<open>Inl err\<close> is \<open>return nil, err\<close>. The calls of \<open>log.Printf\<close> are left out.
\<close>

record WireGuardConnection =
  Name :: string
  Active :: bool

definition showStatus :: "'s sys \<Rightarrow> 's world \<Rightarrow> (error + bytes) \<times> 's world" where
  "showStatus sys w =
     (case run_Output sys [''sudo'', ''wg'', ''show''] w of
        ((output, Some err), w') \<Rightarrow> (Inl (WgShowFailed err), w')
      | ((output, None), w') \<Rightarrow> (Inr output, w'))"

text \<open>The function that \<open>GetStatus\<close> hands to \<open>lo.FilterMap\<close>.\<close>

definition GetStatus_line :: "string \<Rightarrow> string \<times> bool" where
  "GetStatus_line line0 =
     (let line = TrimSpace line0
      in if Contains line ''interface''
         then (''Connection: '' @ TrimPrefix line ''interface:'', True)
         else if Contains line ''latest handshake''
         then (''Latest Handshake: '' @ TrimPrefix line ''latest handshake:'', True)
         else if Contains line ''transfer''
         then (''Transfer: '' @ TrimPrefix line ''transfer:'', True)
         else ([], False))"

definition GetStatus :: "'s sys \<Rightarrow> 's world \<Rightarrow> (error + string) \<times> 's world" where
  "GetStatus sys w =
     (case showStatus sys w of
        (Inl err, w') \<Rightarrow> (Inl err, w')
      | (Inr output, w') \<Rightarrow>
          (let status = FilterMap (Split output (CHR 0x0A)) GetStatus_line;
               status = (if length status mod 3 \<noteq> 0
                         then status @ [''Connection starting...'']
                         else status)
           in (Inr (Join status [CHR 0x0A]), w')))"

text \<open>The loop of \<open>getActiveConnections\<close> over the lines of the status.\<close>

fun getActiveConnections_loop :: "string list \<Rightarrow> string list \<Rightarrow> string list" where
  "getActiveConnections_loop [] activeConnections = activeConnections"
| "getActiveConnections_loop (line # lines) activeConnections =
     (let matches = interfaceRegex_FindStringSubmatch (TrimSpace line)
      in if length matches > 1
         then getActiveConnections_loop lines (activeConnections @ [matches ! 1])
         else getActiveConnections_loop lines activeConnections)"

definition getActiveConnections :: "'s sys \<Rightarrow> 's world \<Rightarrow> (error + string list) \<times> 's world" where
  "getActiveConnections sys w =
     (case showStatus sys w of
        (Inl err, w') \<Rightarrow> (Inl err, w')
      | (Inr status, w') \<Rightarrow>
          (Inr (getActiveConnections_loop (Split status (CHR 0x0A)) []), w'))"

text \<open>\<open>getAllConnections\<close> reads the host and runs no command: it takes the host alone.\<close>

definition getAllConnections :: "'s sys \<Rightarrow> 's \<Rightarrow> error + string list" where
  "getAllConnections sys h =
     (case Glob sys ''/etc/wireguard/*.conf'' h of
        (files, Some err) \<Rightarrow> Inl (Unwrapped err)
      | (files, None) \<Rightarrow> Inr (map (\<lambda>f. TrimSuffix (Base f) (Ext f)) files))"

definition GetConnections ::
  "'s sys \<Rightarrow> 's world \<Rightarrow> (error + WireGuardConnection list) \<times> 's world" where
  "GetConnections sys w =
     (case getActiveConnections sys w of
        (Inl err, w') \<Rightarrow> (Inl err, w')
      | (Inr activeConnection, w') \<Rightarrow>
          (case getAllConnections sys (host w') of
             Inl err \<Rightarrow> (Inl err, w')
           | Inr allConnections \<Rightarrow>
               (Inr (map (\<lambda>i. \<lparr>Name = i, Active = (i \<in> set activeConnection)\<rparr>)
                         allConnections), w')))"

definition getConnection ::
  "'s sys \<Rightarrow> string \<Rightarrow> 's world \<Rightarrow> (error + WireGuardConnection) \<times> 's world" where
  "getConnection sys name w =
     (case GetConnections sys w of
        (Inl err, w') \<Rightarrow> (Inl err, w')
      | (Inr allConnections, w') \<Rightarrow>
          (case find (\<lambda>dev. Name dev = name) allConnections of
             None \<Rightarrow> (Inl (ConnectionNotFound name), w')
           | Some connection \<Rightarrow> (Inr connection, w')))"

text \<open>The loop of \<open>stopActiveConnections\<close>, with the output gathered so far.\<close>

fun stopActiveConnections_loop ::
  "'s sys \<Rightarrow> WireGuardConnection list \<Rightarrow> bytes \<Rightarrow> 's world \<Rightarrow> (error + bytes) \<times> 's world" where
  "stopActiveConnections_loop sys [] output w = (Inr output, w)"
| "stopActiveConnections_loop sys (activeConnection # rest) output w =
     (case run_CombinedOutput sys [''sudo'', ''wg-quick'', ''down'', Name activeConnection] w of
        ((out, Some err), w') \<Rightarrow> (Inl (Unwrapped err), w')
      | ((out, None), w') \<Rightarrow> stopActiveConnections_loop sys rest (output @ out) w')"

definition stopActiveConnections ::
  "'s sys \<Rightarrow> WireGuardConnection list \<Rightarrow> 's world \<Rightarrow> (error + bytes) \<times> 's world" where
  "stopActiveConnections sys activeConnections w =
     stopActiveConnections_loop sys activeConnections [] w"

definition startConnection ::
  "'s sys \<Rightarrow> WireGuardConnection \<Rightarrow> 's world \<Rightarrow> (error + bytes) \<times> 's world" where
  "startConnection sys connection w =
     (if Active connection then (Inr [], w)
      else (case run_CombinedOutput sys [''sudo'', ''wg-quick'', ''up'', Name connection] w of
              ((output, Some err), w') \<Rightarrow> (Inl (Unwrapped err), w')
            | ((output, None), w') \<Rightarrow> (Inr output, w')))"

definition ToggleConnection ::
  "'s sys \<Rightarrow> string \<Rightarrow> 's world \<Rightarrow> (error + bytes) \<times> 's world" where
  "ToggleConnection sys name w =
     (case GetConnections sys w of
        (Inl err, w1) \<Rightarrow> (Inl err, w1)
      | (Inr allConnections, w1) \<Rightarrow>
          (let activeConnections = filter Active allConnections
           in case getConnection sys name w1 of
                (Inl err, w2) \<Rightarrow> (Inl err, w2)
              | (Inr connection, w2) \<Rightarrow>
                  (case stopActiveConnections sys activeConnections w2 of
                     (Inl err, w3) \<Rightarrow> (Inl err, w3)
                   | (Inr output, w3) \<Rightarrow>
                       (case startConnection sys connection w3 of
                          (Inl err, w4) \<Rightarrow> (Inl err, w4)
                        | (Inr startOutput, w4) \<Rightarrow> (Inr (output @ startOutput), w4)))))"

text \<open>
  What \<open>handleToggleAPI\<close> (main.go) does with the two results of
  \<open>ToggleConnection\<close>: with an error it writes a line to the log, from the name, the
  error and the returned bytes, and answers with the text of the error; without one it
  answers with a message and the returned bytes. The first component is the log line.
\<close>

datatype response = ErrorResponse string | SuccessResponse string string

definition handleToggleAPI_toggle :: "string \<Rightarrow> error + bytes \<Rightarrow> string option \<times> response" where
  "handleToggleAPI_toggle name r =
     (case r of
        Inl err \<Rightarrow>
          (let output = []
           in (Some (''Error toggling connection '' @ name @ '': '' @ Error err
                       @ '' (output: '' @ output @ '')''),
               ErrorResponse (Error err)))
      | Inr output \<Rightarrow>
          (None, SuccessResponse (''Connection '' @ name @ '' toggled successfully'') output))"

section \<open>The credential verifier (internal/auth.go)\<close>

subsection \<open>crypto/sha256\<close>




















subsection \<open>The password hash\<close>



section \<open>A gateway for the examples\<close>

text \<open>
  A host on which the general statements are tried. The state of the host is the list
  of the interfaces that are up. A command in \<open>failing\<close> prints a complaint and exits
  with status 1. Of the others, \<open>wg show\<close> prints a block for each interface that is up;
  \<open>wg-quick down\<close> takes an interface that is up down, and \<open>wg-quick up\<close> brings one
  up. Two configuration files, home.conf and office.conf, are in /etc/wireguard.
\<close>

definition example_block :: "string \<Rightarrow> bytes" where
  "example_block n =
     ''interface: '' @ n @ [CHR 0x0A]
     @ ''  latest handshake: 12 seconds ago'' @ [CHR 0x0A]
     @ ''  transfer: 92 B received, 180 B sent'' @ [CHR 0x0A]"

definition example_sys :: "string list list \<Rightarrow> (string list) sys" where
  "example_sys failing =
     \<lparr> Output = (\<lambda>argv h.
         if argv \<in> set failing then (([], Some (OsError ''exit status 1'')), h)
         else if argv = [''sudo'', ''wg'', ''show'']
         then ((concat (map example_block h), None), h)
         else (([], Some (OsError ''exit status 127'')), h)),
       CombinedOutput = (\<lambda>argv h.
         if argv \<in> set failing
         then ((''RTNETLINK answers: Operation not permitted'' @ [CHR 0x0A],
                Some (OsError ''exit status 1'')), h)
         else if length argv = 4 \<and> take 3 argv = [''sudo'', ''wg-quick'', ''down'']
                 \<and> argv ! 3 \<in> set h
         then ((''[#] ip link delete dev '' @ argv ! 3 @ [CHR 0x0A], None),
               removeAll (argv ! 3) h)
         else if length argv = 4 \<and> take 3 argv = [''sudo'', ''wg-quick'', ''up'']
         then ((''[#] ip link add '' @ argv ! 3 @ '' type wireguard'' @ [CHR 0x0A], None),
               h @ [argv ! 3])
         else (([], Some (OsError ''exit status 127'')), h)),
       Glob = (\<lambda>pattern h.
         ([''/etc/wireguard/home.conf'', ''/etc/wireguard/office.conf''], None)) \<rparr>"

text \<open>
  A host on which \<open>Output\<close> prints the same bytes for every command, for trying the
  summary on a given status text.
\<close>

definition fixed_sys :: "bytes \<Rightarrow> unit sys" where
  "fixed_sys out =
     \<lparr> Output = (\<lambda>argv h. ((out, None), h)),
       CombinedOutput = (\<lambda>argv h. (([], Some (OsError ''exit status 127'')), h)),
       Glob = (\<lambda>pattern h. ([], None)) \<rparr>"

section \<open>Properties of the session store\<close>

lemma CreateSession_Inr:
  assumes "CreateSession sm rd t0 = (Inr (t, expiresAt), sm')"
  shows "expiresAt = t0 + Hour \<and> sessions sm' t = Some \<lparr>Expires = expiresAt\<rparr>"
  using assms
  by (auto simp: CreateSession_def Let_def split: sum.splits)

lemma generateSecureToken_example:
  "generateSecureToken (\<lambda>n. (replicate n (CHR 0xA7), None))
     = Inr ''a7a7a7a7a7a7a7a7a7a7a7a7a7a7a7a7a7a7a7a7a7a7a7a7a7a7a7a7a7a7a7a7''"
  by code_simp

lemma CreateSession_example:
  "CreateSession \<lparr>sessions = Map.empty\<rparr> (\<lambda>n. (replicate n (CHR 0xA7), None)) t0
     = (Inr (''a7a7a7a7a7a7a7a7a7a7a7a7a7a7a7a7a7a7a7a7a7a7a7a7a7a7a7a7a7a7a7a7'', t0 + Hour),
        \<lparr>sessions = [''a7a7a7a7a7a7a7a7a7a7a7a7a7a7a7a7a7a7a7a7a7a7a7a7a7a7a7a7a7a7a7a7''
                       \<mapsto> \<lparr>Expires = t0 + Hour\<rparr>]\<rparr>)"
  by (simp add: CreateSession_def generateSecureToken_example Let_def)

text \<open>
  C5, as stated, fails at the instant of expiry: a session created at the instant 0
  expires at \<open>Hour\<close>, and \<open>ValidateSession\<close> at the instant \<open>Hour\<close> still returns
  true, since \<open>time.Now().After(session.Expires)\<close> is false when the two are equal.
\<close>

theorem ValidateSession_at_expiry_counterexample:
  "fst (CreateSession \<lparr>sessions = Map.empty\<rparr> (\<lambda>n. (replicate n (CHR 0xA7), None)) 0)
     = Inr (''a7a7a7a7a7a7a7a7a7a7a7a7a7a7a7a7a7a7a7a7a7a7a7a7a7a7a7a7a7a7a7a7'', Hour)
   \<and> snd (fst (ValidateSession
        (snd (CreateSession \<lparr>sessions = Map.empty\<rparr> (\<lambda>n. (replicate n (CHR 0xA7), None)) 0))
        Hour ''a7a7a7a7a7a7a7a7a7a7a7a7a7a7a7a7a7a7a7a7a7a7a7a7a7a7a7a7a7a7a7a7'')) = True"
  by (simp add: CreateSession_example ValidateSession_def)

text \<open>
  C5 (amended): for every token \<open>t\<close> that \<open>CreateSession\<close> returns with the expiry
  \<open>expiresAt\<close>, \<open>ValidateSession\<close> on the store that \<open>CreateSession\<close> leaves returns
  true at every instant up to and including \<open>expiresAt\<close>, and false at every instant
  after \<open>expiresAt\<close>.
\<close>

theorem ValidateSession_after_create:
  assumes "CreateSession sm rd t0 = (Inr (t, expiresAt), sm')"
  shows "snd (fst (ValidateSession sm' now t)) = (now \<le> expiresAt)"
  using CreateSession_Inr [OF assms]
  by (auto simp: ValidateSession_def)

theorem ValidateSession_after_create_witness:
  "CreateSession \<lparr>sessions = Map.empty\<rparr> (\<lambda>n. (replicate n (CHR 0xA7), None)) 5
     = (Inr (''a7a7a7a7a7a7a7a7a7a7a7a7a7a7a7a7a7a7a7a7a7a7a7a7a7a7a7a7a7a7a7a7'', 5 + Hour),
        \<lparr>sessions = [''a7a7a7a7a7a7a7a7a7a7a7a7a7a7a7a7a7a7a7a7a7a7a7a7a7a7a7a7a7a7a7a7''
                       \<mapsto> \<lparr>Expires = 5 + Hour\<rparr>]\<rparr>)
   \<and> snd (fst (ValidateSession
        \<lparr>sessions = [''a7a7a7a7a7a7a7a7a7a7a7a7a7a7a7a7a7a7a7a7a7a7a7a7a7a7a7a7a7a7a7a7''
                       \<mapsto> \<lparr>Expires = 5 + Hour\<rparr>]\<rparr>
        (5 + Hour) ''a7a7a7a7a7a7a7a7a7a7a7a7a7a7a7a7a7a7a7a7a7a7a7a7a7a7a7a7a7a7a7a7''))
   \<and> \<not> snd (fst (ValidateSession
        \<lparr>sessions = [''a7a7a7a7a7a7a7a7a7a7a7a7a7a7a7a7a7a7a7a7a7a7a7a7a7a7a7a7a7a7a7a7''
                       \<mapsto> \<lparr>Expires = 5 + Hour\<rparr>]\<rparr>
        (6 + Hour) ''a7a7a7a7a7a7a7a7a7a7a7a7a7a7a7a7a7a7a7a7a7a7a7a7a7a7a7a7a7a7a7a7''))"
  using CreateSession_example [of 5]
    ValidateSession_after_create [OF CreateSession_example [of 5], of "5 + Hour"]
    ValidateSession_after_create [OF CreateSession_example [of 5], of "6 + Hour"]
  by simp

text \<open>
  C6: for every token \<open>t\<close> and every store (with \<open>t\<close> present and unexpired, present
  and expired, or absent), \<open>ValidateSession\<close> after \<open>DeleteSession\<close> returns false, at
  every instant; \<open>DeleteSession\<close> twice leaves the store that \<open>DeleteSession\<close> once
  leaves; and when \<open>t\<close> is absent \<open>DeleteSession\<close> leaves the store as it is
  (\<open>DeleteSession\<close> has no error result).
\<close>

theorem DeleteSession_invalidates:
  "ValidateSession (DeleteSession sm t) now t = ((None, False), DeleteSession sm t)
   \<and> DeleteSession (DeleteSession sm t) t = DeleteSession sm t
   \<and> (sessions sm t = None \<longrightarrow> DeleteSession sm t = sm)"
  by (cases sm) (auto simp: ValidateSession_def DeleteSession_def)

theorem DeleteSession_invalidates_witness:
  "sessions \<lparr>sessions = [''k'' \<mapsto> \<lparr>Expires = 7\<rparr>]\<rparr> ''t'' = None
   \<and> DeleteSession \<lparr>sessions = [''k'' \<mapsto> \<lparr>Expires = 7\<rparr>]\<rparr> ''t''
       = \<lparr>sessions = [''k'' \<mapsto> \<lparr>Expires = 7\<rparr>]\<rparr>"
proof -
  have absent: "sessions \<lparr>sessions = [''k'' \<mapsto> \<lparr>Expires = 7\<rparr>]\<rparr> ''t'' = None"
    by simp
  show ?thesis
    using absent
      DeleteSession_invalidates [of "\<lparr>sessions = [''k'' \<mapsto> \<lparr>Expires = 7\<rparr>]\<rparr>" "''t''" 3]
    by blast
qed

text \<open>
  C10: for every token and every store, \<open>ValidateSession\<close> leaves the store as it was.
  In particular an entry that has expired is refused and stays in the store; it goes
  with \<open>DeleteSession\<close> or with a tick of the sweep, and \<open>CreateSession\<close> removes no
  entry either.
\<close>

theorem ValidateSession_frame:
  "snd (ValidateSession sm now t) = sm
   \<and> (sessions sm t = Some s \<and> Expires s < now \<longrightarrow>
        ValidateSession sm now t = ((None, False), sm)
        \<and> sessions (snd (ValidateSession sm now t)) t = Some s
        \<and> sessions (cleanupTick sm now) t = None)
   \<and> sessions (DeleteSession sm t) t = None
   \<and> dom (sessions sm) \<subseteq> dom (sessions (snd (CreateSession sm rd now)))"
  by (auto simp: ValidateSession_def cleanupTick_def DeleteSession_def CreateSession_def Let_def
      split: option.splits sum.splits)

theorem ValidateSession_frame_witness:
  "sessions \<lparr>sessions = [''k'' \<mapsto> \<lparr>Expires = 7\<rparr>]\<rparr> ''k'' = Some \<lparr>Expires = 7\<rparr>
   \<and> Expires \<lparr>Expires = 7\<rparr> < 9
   \<and> ValidateSession \<lparr>sessions = [''k'' \<mapsto> \<lparr>Expires = 7\<rparr>]\<rparr> 9 ''k''
       = ((None, False), \<lparr>sessions = [''k'' \<mapsto> \<lparr>Expires = 7\<rparr>]\<rparr>)
   \<and> sessions (cleanupTick \<lparr>sessions = [''k'' \<mapsto> \<lparr>Expires = 7\<rparr>]\<rparr> 9) ''k'' = None"
proof -
  have expired: "sessions \<lparr>sessions = [''k'' \<mapsto> \<lparr>Expires = 7\<rparr>]\<rparr> ''k'' = Some \<lparr>Expires = 7\<rparr>
    \<and> Expires \<lparr>Expires = 7\<rparr> < 9"
    by simp
  show ?thesis
    using expired
      ValidateSession_frame [of "\<lparr>sessions = [''k'' \<mapsto> \<lparr>Expires = 7\<rparr>]\<rparr>" 9 "''k''"
        "\<lparr>Expires = 7\<rparr>" "\<lambda>n. ([], None)"]
    by blast
qed

section \<open>Properties of the credential verifier\<close>


section \<open>Properties of the library functions\<close>

lemma HasPrefix_iff: "HasPrefix s p \<longleftrightarrow> (\<exists>b. s = p @ b)"
  unfolding HasPrefix_def
  by (metis append_eq_conv_conj append_take_drop_id)

lemma HasSuffix_iff: "HasSuffix s p \<longleftrightarrow> (\<exists>a. s = a @ p)"
proof
  assume "HasSuffix s p"
  then have "s = take (length s - length p) s @ p"
    unfolding HasSuffix_def by (metis append_take_drop_id)
  then show "\<exists>a. s = a @ p" ..
next
  assume "\<exists>a. s = a @ p"
  then show "HasSuffix s p"
    unfolding HasSuffix_def by auto
qed

lemma Contains_iff: "Contains s p \<longleftrightarrow> (\<exists>a b. s = a @ p @ b)"
proof (induction s)
  case Nil
  then show ?case by auto
next
  case (Cons c s)
  have "(\<exists>a b. c # s = a @ p @ b) \<longleftrightarrow> (\<exists>b. c # s = p @ b) \<or> (\<exists>a b. s = a @ p @ b)"
  proof
    assume "\<exists>a b. c # s = a @ p @ b"
    then obtain a b where ab: "c # s = a @ p @ b" by blast
    show "(\<exists>b. c # s = p @ b) \<or> (\<exists>a b. s = a @ p @ b)"
    proof (cases a)
      case Nil
      with ab show ?thesis by auto
    next
      case (Cons x a')
      with ab have "s = a' @ p @ b" by simp
      then show ?thesis by blast
    qed
  next
    assume "(\<exists>b. c # s = p @ b) \<or> (\<exists>a b. s = a @ p @ b)"
    then show "\<exists>a b. c # s = a @ p @ b"
    proof
      assume "\<exists>b. c # s = p @ b"
      then obtain b where "c # s = [] @ p @ b" by auto
      then show ?thesis by blast
    next
      assume "\<exists>a b. s = a @ p @ b"
      then obtain a b where "c # s = (c # a) @ p @ b" by auto
      then show ?thesis by blast
    qed
  qed
  with Cons show ?case by (simp add: HasPrefix_iff)
qed

lemma Contains_rev: "Contains (rev s) (rev p) = Contains s p"
proof -
  have "(\<exists>a b. rev s = a @ rev p @ b) \<longleftrightarrow> (\<exists>a b. s = a @ p @ b)"
  proof
    assume "\<exists>a b. rev s = a @ rev p @ b"
    then obtain a b where "rev s = a @ rev p @ b" by blast
    then have "rev (rev s) = rev (a @ rev p @ b)" by simp
    then have "s = rev b @ p @ rev a" by simp
    then show "\<exists>a b. s = a @ p @ b" by blast
  next
    assume "\<exists>a b. s = a @ p @ b"
    then obtain a b where "s = a @ p @ b" by blast
    then have "rev s = rev b @ rev p @ rev a" by simp
    then show "\<exists>a b. rev s = a @ rev p @ b" by blast
  qed
  then show ?thesis by (simp add: Contains_iff)
qed

lemma Contains_skip_front:
  assumes "\<forall>b \<in> set r. spaceByte b" and "p \<noteq> []" and "\<not> spaceByte (hd p)"
  shows "Contains (r @ s) p = Contains s p"
  using assms
proof (induction r)
  case Nil
  then show ?case by simp
next
  case (Cons a r)
  then have "\<not> HasPrefix (a # r @ s) p"
    by (cases p) (auto simp: HasPrefix_def)
  with Cons show ?case by simp
qed

lemma Contains_skip_back:
  assumes "\<forall>b \<in> set r. spaceByte b" and "p \<noteq> []" and "\<not> spaceByte (last p)"
  shows "Contains (s @ r) p = Contains s p"
proof -
  have "Contains (rev r @ rev s) (rev p) = Contains (rev s) (rev p)"
    using assms by (intro Contains_skip_front) (simp_all add: hd_rev)
  then show ?thesis
    using Contains_rev [of "s @ r" p] by (simp add: Contains_rev)
qed

lemma spaceRunes_bytes: "r \<in> set spaceRunes \<Longrightarrow> \<forall>b \<in> set r. spaceByte b"
  by (auto simp: spaceByte_def)

lemma Contains_TrimLeftSpace:
  assumes "p \<noteq> []" and "\<not> spaceByte (hd p)"
  shows "Contains (TrimLeftSpace s) p = Contains s p"
proof (induction s rule: TrimLeftSpace.induct)
  case (1 s)
  show ?case
  proof (cases "find (HasPrefix s) spaceRunes")
    case None
    then show ?thesis by (simp add: TrimLeftSpace.simps [of s])
  next
    case (Some r)
    then have "HasPrefix s r" and r: "r \<in> set spaceRunes"
      by (auto simp: find_Some_iff)
    then have s: "s = r @ drop (length r) s"
      by (metis HasPrefix_def append_take_drop_id)
    have "Contains (TrimLeftSpace s) p = Contains (drop (length r) s) p"
      using 1 [OF Some] Some by (simp add: TrimLeftSpace.simps [of s])
    also have "\<dots> = Contains (r @ drop (length r) s) p"
      using Contains_skip_front [OF spaceRunes_bytes [OF r] assms] by simp
    finally show ?thesis using s by simp
  qed
qed

lemma Contains_TrimRightSpace:
  assumes "p \<noteq> []" and "\<not> spaceByte (last p)"
  shows "Contains (TrimRightSpace s) p = Contains s p"
proof (induction s rule: TrimRightSpace.induct)
  case (1 s)
  show ?case
  proof (cases "find (HasSuffix s) spaceRunes")
    case None
    then show ?thesis by (simp add: TrimRightSpace.simps [of s])
  next
    case (Some r)
    then have "HasSuffix s r" and r: "r \<in> set spaceRunes"
      by (auto simp: find_Some_iff)
    then have s: "s = take (length s - length r) s @ r"
      unfolding HasSuffix_def by (metis append_take_drop_id)
    have "Contains (TrimRightSpace s) p = Contains (take (length s - length r) s) p"
      using 1 [OF Some] Some by (simp add: TrimRightSpace.simps [of s])
    also have "\<dots> = Contains (take (length s - length r) s @ r) p"
      using Contains_skip_back [OF spaceRunes_bytes [OF r] assms] by simp
    finally show ?thesis using s by simp
  qed
qed

lemma Contains_TrimSpace:
  assumes "p \<noteq> []" and "\<not> spaceByte (hd p)" and "\<not> spaceByte (last p)"
  shows "Contains (TrimSpace s) p = Contains s p"
  using assms by (simp add: TrimSpace_def Contains_TrimRightSpace Contains_TrimLeftSpace)

lemma Contains_TrimSpace_interface:
  "Contains (TrimSpace s) ''interface'' = Contains s ''interface''"
  by (rule Contains_TrimSpace) (simp_all add: spaceByte_def spaceRunes_def)

lemma Contains_TrimSpace_handshake:
  "Contains (TrimSpace s) ''latest handshake'' = Contains s ''latest handshake''"
  by (rule Contains_TrimSpace) (simp_all add: spaceByte_def spaceRunes_def)

lemma Contains_TrimSpace_transfer:
  "Contains (TrimSpace s) ''transfer'' = Contains s ''transfer''"
  by (rule Contains_TrimSpace) (simp_all add: spaceByte_def spaceRunes_def)

section \<open>Properties of the status summary\<close>

lemma FilterMap_eq:
  "FilterMap xs f = map (\<lambda>x. fst (f x)) (filter (\<lambda>x. snd (f x)) xs)"
  by (induction xs) (auto split: prod.splits bool.splits)

lemma GetStatus_line_snd:
  "snd (GetStatus_line l) =
     (Contains l ''interface'' \<or> Contains l ''latest handshake'' \<or> Contains l ''transfer'')"
  using Contains_TrimSpace_interface [of l] Contains_TrimSpace_handshake [of l]
    Contains_TrimSpace_transfer [of l]
  by (simp add: GetStatus_line_def Let_def del: Contains.simps)

lemma GetStatus_line_label:
  assumes "snd (GetStatus_line l)"
  shows "HasPrefix (fst (GetStatus_line l)) ''Connection: ''
         \<or> HasPrefix (fst (GetStatus_line l)) ''Latest Handshake: ''
         \<or> HasPrefix (fst (GetStatus_line l)) ''Transfer: ''"
  using assms
  by (simp add: GetStatus_line_def Let_def HasPrefix_def del: Contains.simps split: if_splits)

lemma Split_sep_free: "c \<notin> set s \<Longrightarrow> Split s c = [s]"
  by (induction s) auto

lemma Split_append: "c \<notin> set e \<Longrightarrow> Split (e @ c # rest) c = e # Split rest c"
  by (induction e) auto

lemma Split_Join:
  "L \<noteq> [] \<Longrightarrow> \<forall>e \<in> set L. c \<notin> set e \<Longrightarrow> Split (Join L [c]) c = L"
  by (induction L "[c]" rule: Join.induct) (auto simp: Split_sep_free Split_append)

lemma Split_pieces: "p \<in> set (Split s c) \<Longrightarrow> c \<notin> set p"
  by (induction s arbitrary: p) (auto split: if_splits list.splits)

lemma set_TrimLeftSpace: "set (TrimLeftSpace s) \<subseteq> set s"
proof (induction s rule: TrimLeftSpace.induct)
  case (1 s)
  show ?case
  proof (cases "find (HasPrefix s) spaceRunes")
    case None
    then show ?thesis by (simp add: TrimLeftSpace.simps [of s])
  next
    case (Some r)
    have "set (drop (length r) s) \<subseteq> set s" by (rule set_drop_subset)
    with 1 [OF Some] Some show ?thesis
      by (auto simp: TrimLeftSpace.simps [of s])
  qed
qed

lemma set_TrimRightSpace: "set (TrimRightSpace s) \<subseteq> set s"
proof (induction s rule: TrimRightSpace.induct)
  case (1 s)
  show ?case
  proof (cases "find (HasSuffix s) spaceRunes")
    case None
    then show ?thesis by (simp add: TrimRightSpace.simps [of s])
  next
    case (Some r)
    have "set (take (length s - length r) s) \<subseteq> set s" by (rule set_take_subset)
    with 1 [OF Some] Some show ?thesis
      by (auto simp: TrimRightSpace.simps [of s])
  qed
qed

lemma set_TrimSpace: "set (TrimSpace s) \<subseteq> set s"
  unfolding TrimSpace_def using set_TrimRightSpace set_TrimLeftSpace by blast

lemma set_TrimPrefix: "set (TrimPrefix s p) \<subseteq> set s"
  by (simp add: TrimPrefix_def set_drop_subset)

lemma GetStatus_line_no_sep:
  assumes "CHR 0x0A \<notin> set l"
  shows "CHR 0x0A \<notin> set (fst (GetStatus_line l))"
proof -
  have "CHR 0x0A \<notin> set (TrimPrefix (TrimSpace l) p)" for p
    using assms set_TrimPrefix [of "TrimSpace l" p] set_TrimSpace [of l] by blast
  then show ?thesis
    by (simp add: GetStatus_line_def Let_def del: Contains.simps)
qed

text \<open>
  C4: for every raw status text that the probe returns, \<open>GetStatus\<close> takes the lines
  that contain \<open>interface\<close>, \<open>latest handshake\<close> or \<open>transfer\<close>, in the order of
  the text, each as a labelled line (\<open>extracted\<close>), appends the one line
  \<open>Connection starting...\<close> exactly when the number of extracted lines is not a
  multiple of 3 (\<open>summary\<close>), and returns these lines joined by line feeds; splitting
  the returned string at the line feeds gives the lines of \<open>summary\<close> back. In
  particular three extracted lines give these three lines and no other, and two
  extracted lines give three lines, the last one the appended line.
\<close>

theorem GetStatus_summary:
  assumes "showStatus sys w = (Inr output, w')"
  shows
    "let extracted = map (\<lambda>l. fst (GetStatus_line l))
           (filter (\<lambda>l. Contains l ''interface'' \<or> Contains l ''latest handshake''
                         \<or> Contains l ''transfer'')
              (Split output (CHR 0x0A)));
         summary = extracted @ (if length extracted mod 3 = 0 then []
                                else [''Connection starting...''])
     in GetStatus sys w = (Inr (Join summary [CHR 0x0A]), w')
        \<and> (summary \<noteq> [] \<longrightarrow> Split (Join summary [CHR 0x0A]) (CHR 0x0A) = summary)
        \<and> (\<forall>e \<in> set extracted. HasPrefix e ''Connection: ''
               \<or> HasPrefix e ''Latest Handshake: '' \<or> HasPrefix e ''Transfer: '')
        \<and> (length extracted = 3 \<longrightarrow> summary = extracted)
        \<and> (length extracted = 2 \<longrightarrow> summary = extracted @ [''Connection starting...''])"
proof -
  define extracted where "extracted = map (\<lambda>l. fst (GetStatus_line l))
           (filter (\<lambda>l. Contains l ''interface'' \<or> Contains l ''latest handshake''
                         \<or> Contains l ''transfer'')
              (Split output (CHR 0x0A)))"
  define summary where "summary = extracted @ (if length extracted mod 3 = 0 then []
                                else [''Connection starting...''])"
  have fm: "FilterMap (Split output (CHR 0x0A)) GetStatus_line = extracted"
    unfolding extracted_def FilterMap_eq GetStatus_line_snd ..
  have run: "GetStatus sys w = (Inr (Join summary [CHR 0x0A]), w')"
    using assms by (simp add: GetStatus_def fm summary_def Let_def)
  have free: "\<forall>e \<in> set summary. CHR 0x0A \<notin> set e"
    unfolding summary_def extracted_def
    by (auto dest: Split_pieces GetStatus_line_no_sep simp del: Contains.simps)
  have again: "summary \<noteq> [] \<longrightarrow> Split (Join summary [CHR 0x0A]) (CHR 0x0A) = summary"
    using Split_Join [OF _ free] by blast
  have labels: "\<forall>e \<in> set extracted. HasPrefix e ''Connection: ''
               \<or> HasPrefix e ''Latest Handshake: '' \<or> HasPrefix e ''Transfer: ''"
    unfolding extracted_def
    using GetStatus_line_label by (auto simp: GetStatus_line_snd simp del: Contains.simps)
  have three: "length extracted = 3 \<longrightarrow> summary = extracted"
    and two: "length extracted = 2 \<longrightarrow> summary = extracted @ [''Connection starting...'']"
    by (simp_all add: summary_def)
  show ?thesis
    using run again labels three two
    unfolding Let_def extracted_def [symmetric] summary_def [symmetric]
    by blast
qed

lemma fixed_showStatus:
  "showStatus (fixed_sys out) \<lparr>host = (), issued = []\<rparr>
     = (Inr out, \<lparr>host = (), issued = [[''sudo'', ''wg'', ''show'']]\<rparr>)"
  by (simp add: showStatus_def run_Output_def fixed_sys_def)

lemma example_extracted_three:
  "map (\<lambda>l. fst (GetStatus_line l))
     (filter (\<lambda>l. Contains l ''interface'' \<or> Contains l ''latest handshake''
                   \<or> Contains l ''transfer'')
        (Split (example_block ''home'') (CHR 0x0A)))
   = [''Connection:  home'', ''Latest Handshake:  12 seconds ago'',
      ''Transfer:  92 B received, 180 B sent'']"
  by code_simp

lemma example_extracted_two:
  "map (\<lambda>l. fst (GetStatus_line l))
     (filter (\<lambda>l. Contains l ''interface'' \<or> Contains l ''latest handshake''
                   \<or> Contains l ''transfer'')
        (Split (''interface: home'' @ [CHR 0x0A] @ ''  listening port: 51820'' @ [CHR 0x0A]
                @ ''  transfer: 0 B received, 148 B sent'' @ [CHR 0x0A]) (CHR 0x0A)))
   = [''Connection:  home'', ''Transfer:  0 B received, 148 B sent'']"
  by code_simp

theorem GetStatus_summary_witness:
  "showStatus (fixed_sys (example_block ''home'')) \<lparr>host = (), issued = []\<rparr>
     = (Inr (example_block ''home''), \<lparr>host = (), issued = [[''sudo'', ''wg'', ''show'']]\<rparr>)
   \<and> GetStatus (fixed_sys (example_block ''home'')) \<lparr>host = (), issued = []\<rparr>
     = (Inr (''Connection:  home'' @ [CHR 0x0A] @ ''Latest Handshake:  12 seconds ago''
             @ [CHR 0x0A] @ ''Transfer:  92 B received, 180 B sent''),
        \<lparr>host = (), issued = [[''sudo'', ''wg'', ''show'']]\<rparr>)
   \<and> GetStatus (fixed_sys (''interface: home'' @ [CHR 0x0A] @ ''  listening port: 51820''
                   @ [CHR 0x0A] @ ''  transfer: 0 B received, 148 B sent'' @ [CHR 0x0A]))
         \<lparr>host = (), issued = []\<rparr>
     = (Inr (''Connection:  home'' @ [CHR 0x0A] @ ''Transfer:  0 B received, 148 B sent''
             @ [CHR 0x0A] @ ''Connection starting...''),
        \<lparr>host = (), issued = [[''sudo'', ''wg'', ''show'']]\<rparr>)"
  using fixed_showStatus [of "example_block ''home''"]
    GetStatus_summary [OF fixed_showStatus [of "example_block ''home''"]]
    GetStatus_summary [OF fixed_showStatus [of "''interface: home'' @ [CHR 0x0A]
        @ ''  listening port: 51820'' @ [CHR 0x0A]
        @ ''  transfer: 0 B received, 148 B sent'' @ [CHR 0x0A]"]]
  unfolding Let_def example_extracted_three example_extracted_two
  by simp

section \<open>Properties of the orchestrator\<close>

lemma getActiveConnections_trace:
  assumes "getActiveConnections sys \<lparr>host = h, issued = []\<rparr> = (r, \<lparr>host = h', issued = tr'\<rparr>)"
  shows "getActiveConnections sys \<lparr>host = h, issued = tr\<rparr> = (r, \<lparr>host = h', issued = tr @ tr'\<rparr>)"
  using assms
  by (auto simp: getActiveConnections_def showStatus_def run_Output_def
      split: prod.splits option.splits sum.splits)

lemma GetConnections_resolved:
  assumes "getActiveConnections sys \<lparr>host = h, issued = []\<rparr> = (Inr act, \<lparr>host = h', issued = tr'\<rparr>)"
    and "getAllConnections sys h' = Inr cfg"
  shows "GetConnections sys \<lparr>host = h, issued = tr\<rparr> =
     (Inr (map (\<lambda>i. \<lparr>Name = i, Active = (i \<in> set act)\<rparr>) cfg), \<lparr>host = h', issued = tr @ tr'\<rparr>)"
  using getActiveConnections_trace [OF assms(1), of tr] assms(2)
  by (simp add: GetConnections_def)

lemma find_Name_map:
  "find (\<lambda>dev. Name dev = name) (map (\<lambda>i. \<lparr>Name = i, Active = P i\<rparr>) cfg) =
     (if name \<in> set cfg then Some \<lparr>Name = name, Active = P name\<rparr> else None)"
  by (induction cfg) auto

lemma filter_Active_map:
  "filter Active (map (\<lambda>i. \<lparr>Name = i, Active = P i\<rparr>) cfg) =
     map (\<lambda>i. \<lparr>Name = i, Active = True\<rparr>) (filter P cfg)"
  by (induction cfg) auto

lemma getConnection_resolved:
  assumes "getActiveConnections sys \<lparr>host = h, issued = []\<rparr> = (Inr act, \<lparr>host = h', issued = tr'\<rparr>)"
    and "getAllConnections sys h' = Inr cfg"
  shows "getConnection sys name \<lparr>host = h, issued = tr\<rparr> =
     (if name \<in> set cfg then Inr \<lparr>Name = name, Active = (name \<in> set act)\<rparr>
      else Inl (ConnectionNotFound name), \<lparr>host = h', issued = tr @ tr'\<rparr>)"
  by (simp add: getConnection_def GetConnections_resolved [OF assms] find_Name_map)

lemma example_probe:
  "getActiveConnections (example_sys fl) \<lparr>host = [''home''], issued = []\<rparr>
     = (if [''sudo'', ''wg'', ''show''] \<in> set fl
        then Inl (WgShowFailed (OsError ''exit status 1'')) else Inr [''home''],
        \<lparr>host = [''home''], issued = [[''sudo'', ''wg'', ''show'']]\<rparr>)"
proof -
  have "getActiveConnections_loop (Split (concat (map example_block [''home''])) (CHR 0x0A)) []
          = [''home'']"
    by code_simp
  then show ?thesis
    by (simp add: getActiveConnections_def showStatus_def run_Output_def example_sys_def)
qed

lemma example_probe_office:
  "getActiveConnections (example_sys []) \<lparr>host = [''office''], issued = []\<rparr>
     = (Inr [''office''], \<lparr>host = [''office''], issued = [[''sudo'', ''wg'', ''show'']]\<rparr>)"
  by code_simp

lemma example_inventory:
  "getAllConnections (example_sys fl) h = Inr [''home'', ''office'']"
proof -
  have "map (\<lambda>f. TrimSuffix (Base f) (Ext f))
          [''/etc/wireguard/home.conf'', ''/etc/wireguard/office.conf'']
        = [''home'', ''office'']"
    by code_simp
  then show ?thesis
    by (simp add: getAllConnections_def example_sys_def)
qed

lemma example_down:
  "CombinedOutput (example_sys []) [''sudo'', ''wg-quick'', ''down'', ''home''] [''home'']
     = ((''[#] ip link delete dev home'' @ [CHR 0x0A], None), [])"
  by (simp add: example_sys_def)

lemma example_up:
  "CombinedOutput (example_sys []) [''sudo'', ''wg-quick'', ''up'', ''office''] []
     = ((''[#] ip link add office type wireguard'' @ [CHR 0x0A], None), [''office''])"
  by (simp add: example_sys_def)

text \<open>
  C3: for every list of configured names (\<open>cfg\<close>, what \<open>getAllConnections\<close> returns)
  and every list of active names that the probe reports (\<open>act\<close>), \<open>GetConnections\<close>
  returns one connection for each configured name, in the order of \<open>cfg\<close>, and a
  connection is marked active exactly when its name is among the active names.
\<close>

theorem GetConnections_listing:
  assumes "getActiveConnections sys w = (Inr act, w')"
    and "getAllConnections sys (host w') = Inr cfg"
  shows "\<exists>conns. GetConnections sys w = (Inr conns, w')
           \<and> map Name conns = cfg
           \<and> (\<forall>c \<in> set conns. Active c = (Name c \<in> set act))"
  using assms
  by (auto simp: GetConnections_def comp_def)

theorem GetConnections_listing_witness:
  "getActiveConnections (example_sys []) \<lparr>host = [''office''], issued = []\<rparr>
     = (Inr [''office''], \<lparr>host = [''office''], issued = [[''sudo'', ''wg'', ''show'']]\<rparr>)
   \<and> getAllConnections (example_sys []) [''office''] = Inr [''home'', ''office'']
   \<and> (\<exists>conns. GetConnections (example_sys []) \<lparr>host = [''office''], issued = []\<rparr>
          = (Inr conns, \<lparr>host = [''office''], issued = [[''sudo'', ''wg'', ''show'']]\<rparr>)
        \<and> map Name conns = [''home'', ''office'']
        \<and> (\<forall>c \<in> set conns. Active c = (Name c \<in> set [''office''])))"
  using example_probe_office example_inventory [of "[]" "[''office'']"]
    GetConnections_listing [of "example_sys []" "\<lparr>host = [''office''], issued = []\<rparr>"
      "[''office'']" "\<lparr>host = [''office''], issued = [[''sudo'', ''wg'', ''show'']]\<rparr>"
      "[''home'', ''office'']"]
  by simp

text \<open>
  C2, as stated, fails: on a host whose configured tunnels are home and office,
  \<open>ToggleConnection\<close> of the unknown name runs \<open>sudo wg show\<close> twice before it fails
  (once in \<open>GetConnections\<close>, once in \<open>getConnection\<close>); and when \<open>sudo wg show\<close>
  fails, \<open>ToggleConnection\<close> fails with the error of the probe, not with the
  not-found error.
\<close>

theorem ToggleConnection_unknown_counterexample:
  "getAllConnections (example_sys []) [''home''] = Inr [''home'', ''office'']
   \<and> ToggleConnection (example_sys []) ''unknown'' \<lparr>host = [''home''], issued = []\<rparr>
       = (Inl (ConnectionNotFound ''unknown''),
          \<lparr>host = [''home''],
            issued = [[''sudo'', ''wg'', ''show''], [''sudo'', ''wg'', ''show'']]\<rparr>)
   \<and> ToggleConnection (example_sys [[''sudo'', ''wg'', ''show'']]) ''unknown''
         \<lparr>host = [''home''], issued = []\<rparr>
       = (Inl (WgShowFailed (OsError ''exit status 1'')),
          \<lparr>host = [''home''], issued = [[''sudo'', ''wg'', ''show'']]\<rparr>)"
  by code_simp

text \<open>
  C2 (amended): for every list of configured names that does not contain the name,
  when the probe succeeds and leaves the host as it is and the configured names can be
  listed, \<open>ToggleConnection\<close> fails with the not-found error for the name and runs no
  \<open>wg-quick\<close> command: the commands it runs are the two status probes, and the host
  is left as it was.
\<close>

theorem ToggleConnection_unknown:
  assumes probe: "getActiveConnections sys \<lparr>host = h, issued = []\<rparr>
                    = (Inr act, \<lparr>host = h, issued = [[''sudo'', ''wg'', ''show'']]\<rparr>)"
    and cfg: "getAllConnections sys h = Inr cfg"
    and unknown: "name \<notin> set cfg"
  shows "ToggleConnection sys name \<lparr>host = h, issued = []\<rparr> =
     (Inl (ConnectionNotFound name),
      \<lparr>host = h, issued = [[''sudo'', ''wg'', ''show''], [''sudo'', ''wg'', ''show'']]\<rparr>)"
  using unknown
  by (simp add: ToggleConnection_def GetConnections_resolved [OF probe cfg]
      getConnection_resolved [OF probe cfg])

theorem ToggleConnection_unknown_witness:
  "getActiveConnections (example_sys []) \<lparr>host = [''home''], issued = []\<rparr>
     = (Inr [''home''], \<lparr>host = [''home''], issued = [[''sudo'', ''wg'', ''show'']]\<rparr>)
   \<and> getAllConnections (example_sys []) [''home''] = Inr [''home'', ''office'']
   \<and> ''unknown'' \<notin> set [''home'', ''office'']
   \<and> ToggleConnection (example_sys []) ''unknown'' \<lparr>host = [''home''], issued = []\<rparr>
       = (Inl (ConnectionNotFound ''unknown''),
          \<lparr>host = [''home''],
            issued = [[''sudo'', ''wg'', ''show''], [''sudo'', ''wg'', ''show'']]\<rparr>)"
proof -
  have probe: "getActiveConnections (example_sys []) \<lparr>host = [''home''], issued = []\<rparr>
     = (Inr [''home''], \<lparr>host = [''home''], issued = [[''sudo'', ''wg'', ''show'']]\<rparr>)"
    by (simp add: example_probe)
  have unknown: "''unknown'' \<notin> set [''home'', ''office'']"
    by simp
  show ?thesis
    using probe unknown example_inventory [of "[]" "[''home'']"]
      ToggleConnection_unknown [OF probe example_inventory unknown]
    by simp
qed

text \<open>
  C1: for every host on which the probe succeeds (and leaves the host as it is), home
  is the only configured tunnel that is active and office is a configured tunnel, and
  on which the two \<open>wg-quick\<close> commands succeed: \<open>ToggleConnection\<close> of office runs,
  after the two status probes, exactly one \<open>wg-quick down\<close>, for home, and then exactly
  one \<open>wg-quick up\<close>, for office, and returns the output of the first followed by the
  output of the second.
\<close>

theorem ToggleConnection_switch:
  assumes probe: "getActiveConnections sys \<lparr>host = h, issued = []\<rparr>
                    = (Inr act, \<lparr>host = h, issued = [[''sudo'', ''wg'', ''show'']]\<rparr>)"
    and cfg: "getAllConnections sys h = Inr cfg"
    and sole: "filter (\<lambda>n. n \<in> set act) cfg = [''home'']"
    and office: "''office'' \<in> set cfg"
    and down: "CombinedOutput sys [''sudo'', ''wg-quick'', ''down'', ''home''] h = ((out_down, None), h1)"
    and up: "CombinedOutput sys [''sudo'', ''wg-quick'', ''up'', ''office''] h1 = ((out_up, None), h2)"
  shows "ToggleConnection sys ''office'' \<lparr>host = h, issued = []\<rparr> =
     (Inr (out_down @ out_up),
      \<lparr>host = h2,
        issued = [[''sudo'', ''wg'', ''show''], [''sudo'', ''wg'', ''show''],
                  [''sudo'', ''wg-quick'', ''down'', ''home''],
                  [''sudo'', ''wg-quick'', ''up'', ''office'']]\<rparr>)"
proof -
  have "''office'' \<in> set act \<Longrightarrow> ''office'' \<in> set (filter (\<lambda>n. n \<in> set act) cfg)"
    using office by simp
  then have inactive: "''office'' \<notin> set act"
    unfolding sole by auto
  show ?thesis
    using office inactive down up
    by (simp add: ToggleConnection_def GetConnections_resolved [OF probe cfg]
        getConnection_resolved [OF probe cfg] filter_Active_map sole
        stopActiveConnections_def startConnection_def run_CombinedOutput_def)
qed

theorem ToggleConnection_switch_witness:
  "getActiveConnections (example_sys []) \<lparr>host = [''home''], issued = []\<rparr>
     = (Inr [''home''], \<lparr>host = [''home''], issued = [[''sudo'', ''wg'', ''show'']]\<rparr>)
   \<and> getAllConnections (example_sys []) [''home''] = Inr [''home'', ''office'']
   \<and> filter (\<lambda>n. n \<in> set [''home'']) [''home'', ''office''] = [''home'']
   \<and> ''office'' \<in> set [''home'', ''office'']
   \<and> ToggleConnection (example_sys []) ''office'' \<lparr>host = [''home''], issued = []\<rparr>
       = (Inr ((''[#] ip link delete dev home'' @ [CHR 0x0A])
               @ (''[#] ip link add office type wireguard'' @ [CHR 0x0A])),
          \<lparr>host = [''office''],
            issued = [[''sudo'', ''wg'', ''show''], [''sudo'', ''wg'', ''show''],
                      [''sudo'', ''wg-quick'', ''down'', ''home''],
                      [''sudo'', ''wg-quick'', ''up'', ''office'']]\<rparr>)"
proof -
  have probe: "getActiveConnections (example_sys []) \<lparr>host = [''home''], issued = []\<rparr>
     = (Inr [''home''], \<lparr>host = [''home''], issued = [[''sudo'', ''wg'', ''show'']]\<rparr>)"
    by (simp add: example_probe)
  have sole: "filter (\<lambda>n. n \<in> set [''home'']) [''home'', ''office''] = [''home'']"
    by simp
  have office: "''office'' \<in> set [''home'', ''office'']"
    by simp
  show ?thesis
    using probe sole office example_inventory [of "[]" "[''home'']"]
      ToggleConnection_switch [OF probe example_inventory sole office example_down example_up]
    by simp
qed

text \<open>
  C7: for every host on which the probe succeeds (and leaves the host as it is) and home
  is the only configured tunnel that is active, and on which \<open>wg-quick down home\<close>
  succeeds: \<open>ToggleConnection\<close> of home runs, after the two status probes, exactly one
  \<open>wg-quick down\<close>, for home, and no \<open>wg-quick up\<close> (\<open>startConnection\<close> returns at
  once for a connection found active), and returns the output of that command. Where
  \<open>ups\<close> gives the interfaces that are up on a host, the probe reported them and the
  command took home, and nothing else, down, no configured tunnel is up on the host
  that \<open>ToggleConnection\<close> leaves.
\<close>

theorem ToggleConnection_active_target:
  assumes probe: "getActiveConnections sys \<lparr>host = h, issued = []\<rparr>
                    = (Inr act, \<lparr>host = h, issued = [[''sudo'', ''wg'', ''show'']]\<rparr>)"
    and cfg: "getAllConnections sys h = Inr cfg"
    and sole: "filter (\<lambda>n. n \<in> set act) cfg = [''home'']"
    and down: "CombinedOutput sys [''sudo'', ''wg-quick'', ''down'', ''home''] h = ((out_down, None), h1)"
    and reported: "set act = ups h"
    and deactivated: "ups h1 = ups h - {''home''}"
  shows "ToggleConnection sys ''home'' \<lparr>host = h, issued = []\<rparr> =
     (Inr out_down,
      \<lparr>host = h1,
        issued = [[''sudo'', ''wg'', ''show''], [''sudo'', ''wg'', ''show''],
                  [''sudo'', ''wg-quick'', ''down'', ''home'']]\<rparr>)
     \<and> set cfg \<inter> ups h1 = {}"
proof -
  have mem: "''home'' \<in> set (filter (\<lambda>n. n \<in> set act) cfg)"
    unfolding sole by simp
  then have home: "''home'' \<in> set cfg" "''home'' \<in> set act"
    by auto
  have "set (filter (\<lambda>n. n \<in> set act) cfg) = {''home''}"
    unfolding sole by simp
  moreover have "set cfg \<inter> set act = set (filter (\<lambda>n. n \<in> set act) cfg)"
    by auto
  ultimately have "set cfg \<inter> ups h = {''home''}"
    using reported by simp
  then have none: "set cfg \<inter> ups h1 = {}"
    unfolding deactivated by auto
  have "ToggleConnection sys ''home'' \<lparr>host = h, issued = []\<rparr> =
     (Inr out_down,
      \<lparr>host = h1,
        issued = [[''sudo'', ''wg'', ''show''], [''sudo'', ''wg'', ''show''],
                  [''sudo'', ''wg-quick'', ''down'', ''home'']]\<rparr>)"
    using home down
    by (simp add: ToggleConnection_def GetConnections_resolved [OF probe cfg]
        getConnection_resolved [OF probe cfg] filter_Active_map sole
        stopActiveConnections_def startConnection_def run_CombinedOutput_def)
  with none show ?thesis by simp
qed

theorem ToggleConnection_active_target_witness:
  "getActiveConnections (example_sys []) \<lparr>host = [''home''], issued = []\<rparr>
     = (Inr [''home''], \<lparr>host = [''home''], issued = [[''sudo'', ''wg'', ''show'']]\<rparr>)
   \<and> getAllConnections (example_sys []) [''home''] = Inr [''home'', ''office'']
   \<and> filter (\<lambda>n. n \<in> set [''home'']) [''home'', ''office''] = [''home'']
   \<and> set [] = set [''home''] - {''home''}
   \<and> ToggleConnection (example_sys []) ''home'' \<lparr>host = [''home''], issued = []\<rparr>
       = (Inr (''[#] ip link delete dev home'' @ [CHR 0x0A]),
          \<lparr>host = [],
            issued = [[''sudo'', ''wg'', ''show''], [''sudo'', ''wg'', ''show''],
                      [''sudo'', ''wg-quick'', ''down'', ''home'']]\<rparr>)
   \<and> set [''home'', ''office''] \<inter> set ([] :: string list) = {}"
proof -
  have probe: "getActiveConnections (example_sys []) \<lparr>host = [''home''], issued = []\<rparr>
     = (Inr [''home''], \<lparr>host = [''home''], issued = [[''sudo'', ''wg'', ''show'']]\<rparr>)"
    by (simp add: example_probe)
  have sole: "filter (\<lambda>n. n \<in> set [''home'']) [''home'', ''office''] = [''home'']"
    by simp
  have reported: "set [''home''] = set [''home'']"
    by simp
  have deactivated: "set ([] :: string list) = set [''home''] - {''home''}"
    by simp
  show ?thesis
    using probe sole deactivated example_inventory [of "[]" "[''home'']"]
      ToggleConnection_active_target [of "example_sys []" "[''home'']" "[''home'']"
        "[''home'', ''office'']" _ "[]" set,
        OF probe example_inventory sole example_down reported deactivated]
    by simp
qed

text \<open>
  What \<open>ToggleConnection\<close> does when every \<open>wg-quick down\<close> succeeds and the
  \<open>wg-quick up\<close> of the target fails, on any host: it returns the error of the failed
  command as it is, and runs no further command, so nothing that was taken down is
  brought up again. Where \<open>ups\<close> gives the interfaces that are up, a \<open>wg-quick down\<close>
  that succeeds takes its interface down and the failed \<open>wg-quick up\<close> brings none
  up, no configured tunnel is up afterwards.
\<close>

lemma stopActiveConnections_loop_ok:
  assumes "stopActiveConnections_loop sys cs out w = (Inr out', w')"
    and "\<forall>n h b h'. CombinedOutput sys [''sudo'', ''wg-quick'', ''down'', n] h = ((b, None), h')
           \<longrightarrow> ups h' = ups h - {n}"
  shows "issued w' = issued w @ map (\<lambda>c. [''sudo'', ''wg-quick'', ''down'', Name c]) cs
         \<and> ups (host w') = ups (host w) - Name ` set cs"
  using assms(1)
proof (induction cs arbitrary: out w)
  case Nil
  then show ?case by simp
next
  case (Cons c cs)
  obtain b e h1 where run: "CombinedOutput sys [''sudo'', ''wg-quick'', ''down'', Name c] (host w)
      = ((b, e), h1)"
    by (metis surj_pair)
  with Cons.prems have e: "e = None"
    by (cases e) (simp_all add: run_CombinedOutput_def)
  let ?w1 = "\<lparr>host = h1, issued = issued w @ [[''sudo'', ''wg-quick'', ''down'', Name c]]\<rparr>"
  have rest: "stopActiveConnections_loop sys cs (out @ b) ?w1 = (Inr out', w')"
    using Cons.prems run e by (simp add: run_CombinedOutput_def)
  have "ups h1 = ups (host w) - {Name c}"
    using assms(2) run e by simp
  with Cons.IH [OF rest] show ?case
    by auto
qed

lemma ToggleConnection_activation_fails:
  assumes probe: "getActiveConnections sys \<lparr>host = h, issued = []\<rparr>
                    = (Inr act, \<lparr>host = h, issued = [[''sudo'', ''wg'', ''show'']]\<rparr>)"
    and cfg: "getAllConnections sys h = Inr cfg"
    and target: "name \<in> set cfg" "name \<notin> set act"
    and stopped: "stopActiveConnections sys
                    (map (\<lambda>n. \<lparr>Name = n, Active = True\<rparr>) (filter (\<lambda>n. n \<in> set act) cfg))
                    \<lparr>host = h, issued = [[''sudo'', ''wg'', ''show''], [''sudo'', ''wg'', ''show'']]\<rparr>
                  = (Inr out, w3)"
    and failed: "CombinedOutput sys [''sudo'', ''wg-quick'', ''up'', name] (host w3)
                   = ((raw, Some err), h')"
    and reported: "set act = ups h"
    and down: "\<forall>n h b h'. CombinedOutput sys [''sudo'', ''wg-quick'', ''down'', n] h = ((b, None), h')
           \<longrightarrow> ups h' = ups h - {n}"
    and inert: "ups h' = ups (host w3)"
  shows "ToggleConnection sys name \<lparr>host = h, issued = []\<rparr> =
     (Inl (Unwrapped err),
      \<lparr>host = h',
        issued = [[''sudo'', ''wg'', ''show''], [''sudo'', ''wg'', ''show'']]
                 @ map (\<lambda>n. [''sudo'', ''wg-quick'', ''down'', n]) (filter (\<lambda>n. n \<in> set act) cfg)
                 @ [[''sudo'', ''wg-quick'', ''up'', name]]\<rparr>)
     \<and> set cfg \<inter> ups h' = {}"
proof -
  have loop: "stopActiveConnections_loop sys
       (map (\<lambda>n. \<lparr>Name = n, Active = True\<rparr>) (filter (\<lambda>n. n \<in> set act) cfg)) []
       \<lparr>host = h, issued = [[''sudo'', ''wg'', ''show''], [''sudo'', ''wg'', ''show'']]\<rparr>
     = (Inr out, w3)"
    using stopped by (simp add: stopActiveConnections_def)
  from stopActiveConnections_loop_ok [where ups = ups, OF loop down]
  have tr: "issued w3 = [[''sudo'', ''wg'', ''show''], [''sudo'', ''wg'', ''show'']]
              @ map (\<lambda>n. [''sudo'', ''wg-quick'', ''down'', n]) (filter (\<lambda>n. n \<in> set act) cfg)"
    and up: "ups (host w3) = ups h - {n \<in> set cfg. n \<in> set act}"
    by (auto simp: comp_def image_def)
  have none: "set cfg \<inter> ups h' = {}"
    unfolding inert up reported [symmetric] by auto
  have "ToggleConnection sys name \<lparr>host = h, issued = []\<rparr> =
     (Inl (Unwrapped err), \<lparr>host = h', issued = issued w3 @ [[''sudo'', ''wg-quick'', ''up'', name]]\<rparr>)"
    using target stopped failed
    by (simp add: ToggleConnection_def GetConnections_resolved [OF probe cfg]
        getConnection_resolved [OF probe cfg] filter_Active_map
        startConnection_def run_CombinedOutput_def)
  with none tr show ?thesis by simp
qed

text \<open>
  C8: here the code falls short of the claim. On the example gateway with home up and
  a \<open>wg-quick up office\<close> that prints a complaint and exits with status 1,
  \<open>ToggleConnection\<close> of office takes home down, runs the failing command and returns
  its error alone: \<open>startConnection\<close> returns \<open>nil, err\<close> and drops the bytes the
  command printed. No tunnel is left up and nothing is rolled back, as the claim says;
  but the report holds no raw output: the text of the error is \<open>exit status 1\<close>, and
  the line that \<open>handleToggleAPI\<close> logs, which is written to show the output, shows
  an empty one.
\<close>

theorem ToggleConnection_failed_activation:
  "CombinedOutput (example_sys [[''sudo'', ''wg-quick'', ''up'', ''office'']])
     [''sudo'', ''wg-quick'', ''up'', ''office''] []
     = ((''RTNETLINK answers: Operation not permitted'' @ [CHR 0x0A],
         Some (OsError ''exit status 1'')), [])
   \<and> ToggleConnection (example_sys [[''sudo'', ''wg-quick'', ''up'', ''office'']]) ''office''
         \<lparr>host = [''home''], issued = []\<rparr>
       = (Inl (Unwrapped (OsError ''exit status 1'')),
          \<lparr>host = [],
            issued = [[''sudo'', ''wg'', ''show''], [''sudo'', ''wg'', ''show''],
                      [''sudo'', ''wg-quick'', ''down'', ''home''],
                      [''sudo'', ''wg-quick'', ''up'', ''office'']]\<rparr>)
   \<and> handleToggleAPI_toggle ''office'' (Inl (Unwrapped (OsError ''exit status 1'')))
       = (Some ''Error toggling connection office: exit status 1 (output: )'',
          ErrorResponse ''exit status 1'')"
  by code_simp

end
